theory Spec2Isabelle
  imports Complex_Main "HOL-Library.Product_Lexorder"
begin

section \<open>Scroll debouncer\<close>

text \<open>
  The dataclass \<open>ScrollState\<close> of \<open>main.py\<close>. Readings of \<open>time.monotonic()\<close> are
  Python floats; they are modelled as reals, so the comparisons of the source are exact.
  A direction is the Python string the caller passes (\<open>"down"\<close> or \<open>"up"\<close>).
\<close>

record scroll_state =
  active :: bool
  last_time :: real
  last_direction :: "string option"
  last_trigger_time :: real

definition scroll_state0 :: scroll_state where
  "scroll_state0 = \<lparr>active = False, last_time = 0, last_direction = None, last_trigger_time = 0\<rparr>"

definition GO_DIRECTION :: string where
  "GO_DIRECTION = ''down''"

definition BACK_DIRECTION :: string where
  "BACK_DIRECTION = ''up''"

definition SCROLL_BUFFER_SECONDS :: real where
  "SCROLL_BUFFER_SECONDS = 8 / 10"

definition SCROLL_GAP_SECONDS :: real where
  "SCROLL_GAP_SECONDS = SCROLL_BUFFER_SECONDS"

definition MIN_SCROLL_INTERVAL :: real where
  "MIN_SCROLL_INTERVAL = SCROLL_BUFFER_SECONDS"

text \<open>
  \<open>handle_scroll(direction, now)\<close>. The source reads \<open>ui_state.scroll_block_until\<close>
  (argument \<open>block\<close> here) and calls \<open>on_direction(direction)\<close> where a gesture is
  emitted; the model returns the new debouncer state together with the direction handed
  to \<open>on_direction\<close>, \<open>None\<close> when \<open>on_direction\<close> is not called. \<open>on_direction\<close>
  never writes the debouncer state.
\<close>

definition handle_scroll :: "string \<Rightarrow> real \<Rightarrow> real \<Rightarrow> scroll_state \<Rightarrow> scroll_state \<times> string option" where
  "handle_scroll direction now block s =
     (if now - last_trigger_time s < MIN_SCROLL_INTERVAL then (s, None)
      else if now < block then (s, None)
      else
        let (s1, emitted) =
              (if \<not> active s then
                 (s\<lparr>active := True, last_direction := Some direction\<rparr>, Some direction)
               else if Some direction \<noteq> last_direction s
                       \<or> now - last_time s > SCROLL_GAP_SECONDS then
                 (s\<lparr>last_direction := Some direction\<rparr>, Some direction)
               else (s, None))
        in (s1\<lparr>last_time := now, last_trigger_time := now\<rparr>, emitted))"

definition update_scroll_state :: "real \<Rightarrow> scroll_state \<Rightarrow> scroll_state" where
  "update_scroll_state now s =
     (if active s \<and> now - last_time s > SCROLL_GAP_SECONDS
      then s\<lparr>active := False, last_direction := None\<rparr>
      else s)"

text \<open>
  The debouncer's share of the main loop of \<open>run\<close>: every iteration reads the clock,
  calls \<open>update_scroll_state(now)\<close> and, when a scroll event is pending, calls
  \<open>handle_scroll(direction, now)\<close> with the same \<open>now\<close>. An iteration is
  \<open>(now, block, input)\<close>: the clock reading, the value of \<open>scroll_block_until\<close> at that
  moment and the pending direction, if any. The result collects the emitted gestures
  in order.
\<close>

fun run_scroll :: "scroll_state \<Rightarrow> (real \<times> real \<times> string option) list \<Rightarrow> scroll_state \<times> string list" where
  "run_scroll s [] = (s, [])"
| "run_scroll s ((now, block, inp) # es) =
     (let s1 = update_scroll_state now s in
      case inp of
        None \<Rightarrow> run_scroll s1 es
      | Some direction \<Rightarrow>
          (let (s2, emitted) = handle_scroll direction now block s1;
               (s3, gs) = run_scroll s2 es
           in (s3, (case emitted of None \<Rightarrow> gs | Some g \<Rightarrow> g # gs))))"

section \<open>Session data\<close>

text \<open>
  Python strings are modelled as lists of 8-bit characters, read as the code points below
  256 (Latin-1): they cover the keys the input screens accept (32 to 126) and German
  word lists. Python integers are unbounded: \<open>int\<close>.
\<close>

record box_style =
  fill_pair :: int
  text_pair :: int
  border_pair :: int

record game_mode =
  name :: string
  description :: string
  style :: box_style
  source :: string

text \<open>
  The dataclass \<open>UIState\<close>. The two candidate lists default to Python's \<open>None\<close>,
  every reader treats \<open>None\<close> and the empty list alike.
\<close>

record ui_state =
  screen :: string
  input_buffer :: string
  word_count_buffer :: string
  imposter_percent_buffer :: string
  player_count :: int
  word_options_count :: int
  word_buffer :: string
  chosen_word :: string
  mode_index :: int
  selected_mode :: "game_mode option"
  imposter_index :: "int option"
  current_player :: int
  countdown_until :: real
  reveal_until :: real
  handoff_until :: real
  handoff_advance :: bool
  handoff_pending_action :: string
  imposter_all_chance :: int
  all_imposter_except_first :: bool
  random_candidates :: "string list option"
  random_filter :: string
  scroll_block_until :: real
  simple_candidates :: "string list option"
  simple_index :: int
  simple_hold_started :: bool
  simple_hold_until :: real

definition ui_state0 :: ui_state where
  "ui_state0 =
     \<lparr>screen = ''idle'', input_buffer = [], word_count_buffer = [],
      imposter_percent_buffer = [], player_count = 0, word_options_count = 0,
      word_buffer = [], chosen_word = [], mode_index = 0, selected_mode = None,
      imposter_index = None, current_player = 0, countdown_until = 0, reveal_until = 0,
      handoff_until = 0, handoff_advance = True, handoff_pending_action = [],
      imposter_all_chance = 0, all_imposter_except_first = False,
      random_candidates = None, random_filter = [], scroll_block_until = 0,
      simple_candidates = None, simple_index = 0, simple_hold_started = False,
      simple_hold_until = 0\<rparr>"

text \<open>
  The functions below write \<open>ui_state\<close> only. Their calls of \<open>set_box_style\<close>,
  \<open>set_message_box_title\<close> and \<open>set_message_box_text\<close> write the two display globals
  \<open>box_style\<close> and \<open>message_box\<close>, which no function of the session reads back; the
  display globals are left out of the model.
\<close>

definition reset_idle :: "ui_state \<Rightarrow> ui_state" where
  "reset_idle u =
     u\<lparr>screen := ''idle'', input_buffer := [], word_count_buffer := [],
       imposter_percent_buffer := [], word_options_count := 0, word_buffer := [],
       player_count := 0, chosen_word := [], selected_mode := None,
       imposter_index := None, current_player := 0, countdown_until := 0,
       reveal_until := 0, handoff_until := 0, handoff_advance := True,
       handoff_pending_action := [], imposter_all_chance := 0,
       all_imposter_except_first := False, simple_hold_started := False,
       simple_hold_until := 0, random_candidates := Some [], random_filter := [],
       simple_candidates := Some [], simple_index := 0\<rparr>"

subsection \<open>Parsing the setup buffers\<close>

text \<open>
  \<open>enter_confirm\<close> calls the builtin \<open>int\<close> on each buffer and catches its
  \<open>ValueError\<close>. The builtin is the parameter \<open>parse\<close>, with \<open>None\<close> for
  \<open>ValueError\<close>. \<open>b or "0"\<close> is \<open>"0"\<close> for the empty string.
\<close>

definition or_zero :: "string \<Rightarrow> string" where
  "or_zero b = (if b = [] then ''0'' else b)"

definition enter_confirm :: "(string \<Rightarrow> int option) \<Rightarrow> ui_state \<Rightarrow> ui_state" where
  "enter_confirm parse u =
     (let u1 = u\<lparr>screen := ''confirm''\<rparr>;
          u2 = u1\<lparr>player_count :=
                  (case parse (input_buffer u1) of
                     None \<Rightarrow> 1
                   | Some n \<Rightarrow> max 1 n)\<rparr>;
          u3 = u2\<lparr>word_options_count :=
                  (case parse (or_zero (word_count_buffer u2)) of
                     None \<Rightarrow> 0
                   | Some n \<Rightarrow> max 0 n)\<rparr>
      in u3\<lparr>imposter_all_chance :=
              (case parse (or_zero (imposter_percent_buffer u3)) of
                 None \<Rightarrow> 0
               | Some n \<Rightarrow> max 0 (min 100 n))\<rparr>)"

text \<open>
  The builtin \<open>int\<close> on a string of code points below 256, as CPython reads a base 10
  literal: blanks are stripped at both ends (tab to carriage return, space, and the
  Latin-1 blanks 133 and 160), one sign may follow, then decimal digits with single
  underscores between digits. More than 4300 digits are a \<open>ValueError\<close> (the default
  \<open>sys.int_info.default_max_str_digits\<close>), as is every other string. The input
  screens of \<open>run\<close> append the digit keys 48 to 57 only.
\<close>

definition is_digit :: "char \<Rightarrow> bool" where
  "is_digit c = (48 \<le> (of_char c :: nat) \<and> (of_char c :: nat) \<le> 57)"

definition is_space :: "char \<Rightarrow> bool" where
  "is_space c =
     (let n = (of_char c :: nat) in (9 \<le> n \<and> n \<le> 13) \<or> n = 32 \<or> n = 133 \<or> n = 160)"

definition strip :: "string \<Rightarrow> string" where
  "strip s = rev (dropWhile is_space (rev (dropWhile is_space s)))"

fun grouped :: "string \<Rightarrow> bool" where
  "grouped [] = False"
| "grouped [c] = is_digit c"
| "grouped (c # d # cs) =
     (is_digit c \<and> (if d = CHR ''_'' then grouped cs else grouped (d # cs)))"

definition max_str_digits :: nat where
  "max_str_digits = 4300"

definition digits_value :: "string \<Rightarrow> int" where
  "digits_value s = foldl (\<lambda>n c. 10 * n + (int (of_char c) - 48)) 0 s"

definition py_int :: "string \<Rightarrow> int option" where
  "py_int s =
     (let t = strip s;
          (negative, body) =
             (case t of
                [] \<Rightarrow> (False, [])
              | c # cs \<Rightarrow>
                  if c = CHR ''-'' then (True, cs)
                  else if c = CHR ''+'' then (False, cs)
                  else (False, t));
          ds = filter is_digit body
      in if grouped body \<and> length ds \<le> max_str_digits
         then Some (if negative then - digits_value ds else digits_value ds)
         else None)"

subsection \<open>The random module\<close>

text \<open>
  The module \<open>random\<close> keeps a hidden generator. It is modelled as the sequence of raw
  draws still to come: every call consumes the draw at position 0 and leaves the rest.
  A raw draw \<open>r\<close> selects the element \<open>r mod n\<close> among \<open>n\<close> equally likely outcomes.
  An exception of the source is the left injection.
\<close>

datatype py_error = ValueError | IndexError

type_synonym rng = "nat \<Rightarrow> nat"

definition rest :: "rng \<Rightarrow> rng" where
  "rest g = (\<lambda>n. g (Suc n))"

definition randint :: "int \<Rightarrow> int \<Rightarrow> rng \<Rightarrow> py_error + (int \<times> rng)" where
  "randint a b g =
     (if b < a then Inl ValueError
      else Inr (a + int (g 0 mod nat (b - a + 1)), rest g))"

definition choice :: "'a list \<Rightarrow> rng \<Rightarrow> py_error + ('a \<times> rng)" where
  "choice xs g =
     (if xs = [] then Inl IndexError
      else Inr (xs ! (g 0 mod length xs), rest g))"

fun sample_loop :: "'a list \<Rightarrow> nat \<Rightarrow> rng \<Rightarrow> 'a list \<times> rng" where
  "sample_loop xs 0 g = ([], g)"
| "sample_loop xs (Suc k) g =
     (let i = g 0 mod length xs;
          (ys, g') = sample_loop (take i xs @ drop (Suc i) xs) k (rest g)
      in (xs ! i # ys, g'))"

text \<open>
  \<open>random.sample(population, k)\<close>: \<open>k\<close> elements without replacement, a
  \<open>ValueError\<close> when \<open>k\<close> is negative or larger than the population.
\<close>

definition sample :: "'a list \<Rightarrow> int \<Rightarrow> rng \<Rightarrow> py_error + ('a list \<times> rng)" where
  "sample xs k g =
     (if k < 0 \<or> int (length xs) < k then Inl ValueError
      else Inr (sample_loop xs (nat k) g))"

text \<open>Python's \<open>xs[i]\<close>: a negative index counts from the end.\<close>

definition py_index :: "'a list \<Rightarrow> int \<Rightarrow> py_error + 'a" where
  "py_index xs i =
     (if 0 \<le> i \<and> i < int (length xs) then Inr (xs ! nat i)
      else if i < 0 \<and> - int (length xs) \<le> i then Inr (xs ! nat (int (length xs) + i))
      else Inl IndexError)"

subsection \<open>Roles and the reveal loop\<close>

text \<open>
  \<open>WORDS\<close> is the word list loaded from \<open>words.txt\<close> when the module is imported
  (empty when the file is missing); it is a parameter of every function that reads it.
\<close>

definition choose_word_for_source :: "string list \<Rightarrow> string \<Rightarrow> rng \<Rightarrow> py_error + (string \<times> rng)" where
  "choose_word_for_source WORDS src g =
     (if WORDS = [] then Inr (''mystery'', g) else choice WORDS g)"

definition assign_imposter :: "ui_state \<Rightarrow> rng \<Rightarrow> py_error + (ui_state \<times> rng)" where
  "assign_imposter u g =
     (if player_count u \<le> 1 then
        Inr (u\<lparr>imposter_index := None, all_imposter_except_first := False\<rparr>, g)
      else
        let u1 = u\<lparr>all_imposter_except_first := False\<rparr> in
        case randint 1 100 g of
          Inl e \<Rightarrow> Inl e
        | Inr (roll, g1) \<Rightarrow>
            if roll \<le> imposter_all_chance u1 then
              Inr (u1\<lparr>imposter_index := None, all_imposter_except_first := True\<rparr>, g1)
            else
              case (let src = map_option source (selected_mode u1) in
                    if src = Some ''player'' then randint 1 (player_count u1 - 1) g1
                    else if src = Some ''random'' \<and> word_options_count u1 > 1
                      then randint 1 (player_count u1 - 1) g1
                    else if src = Some ''random_simple'' \<and> word_options_count u1 > 1
                      then randint 1 (player_count u1 - 1) g1
                    else randint 0 (player_count u1 - 1) g1) of
                Inl e \<Rightarrow> Inl e
              | Inr (i, g2) \<Rightarrow> Inr (u1\<lparr>imposter_index := Some i\<rparr>, g2))"

text \<open>
  The claim's condition for sparing player 0, in the claim's words: the mode is Player,
  or the mode is Random or RandomSimple and \<open>word_options_count > 1\<close>.
\<close>

definition first_player_spared :: "ui_state \<Rightarrow> bool" where
  "first_player_spared u =
     (case selected_mode u of
        None \<Rightarrow> False
      | Some m \<Rightarrow>
          source m = ''player''
          \<or> ((source m = ''random'' \<or> source m = ''random_simple'') \<and> 1 < word_options_count u))"

definition start_waiting :: "ui_state \<Rightarrow> ui_state" where
  "start_waiting u = u\<lparr>screen := ''wait_scroll''\<rparr>"

definition start_reveal :: "real \<Rightarrow> ui_state \<Rightarrow> ui_state" where
  "start_reveal now u = u\<lparr>screen := ''reveal'', reveal_until := now + 3\<rparr>"

definition start_handoff :: "real \<Rightarrow> bool \<Rightarrow> string \<Rightarrow> ui_state \<Rightarrow> ui_state" where
  "start_handoff now advance_after pending_action u =
     u\<lparr>screen := ''handoff'', handoff_until := now + 3,
       handoff_advance := advance_after, handoff_pending_action := pending_action\<rparr>"

definition advance_player :: "ui_state \<Rightarrow> ui_state" where
  "advance_player u =
     (let u1 = u\<lparr>current_player := current_player u + 1\<rparr> in
      if current_player u1 \<ge> player_count u1 then u1\<lparr>screen := ''done''\<rparr>
      else start_waiting u1)"

definition enter_word_entry :: "ui_state \<Rightarrow> ui_state" where
  "enter_word_entry u = u\<lparr>screen := ''word_entry''\<rparr>"

text \<open>
  \<open>prepare_word_and_start\<close> reads \<open>time.monotonic()\<close> once, for the screen it enters;
  the reading is the parameter \<open>clock\<close>.
\<close>

definition prepare_word_and_start :: "string list \<Rightarrow> real \<Rightarrow> ui_state \<Rightarrow> rng \<Rightarrow> py_error + (ui_state \<times> rng)" where
  "prepare_word_and_start WORDS clock u g =
     (case selected_mode u of
        None \<Rightarrow> Inr (u, g)
      | Some m \<Rightarrow>
          (case (if source m = ''player'' then
                   Inr (u\<lparr>chosen_word := (if word_buffer u = [] then ''mystery'' else word_buffer u)\<rparr>, g)
                 else if source m = ''random'' \<and> chosen_word u \<noteq> [] then Inr (u, g)
                 else if source m = ''random_simple'' \<and> chosen_word u \<noteq> [] then Inr (u, g)
                 else
                   (case choose_word_for_source WORDS (source m) g of
                      Inl e \<Rightarrow> Inl e
                    | Inr (w, g1) \<Rightarrow> Inr (u\<lparr>chosen_word := w\<rparr>, g1))) of
             Inl e \<Rightarrow> Inl e
           | Inr (u1, g1) \<Rightarrow>
               (case assign_imposter (u1\<lparr>current_player := 0\<rparr>) g1 of
                  Inl e \<Rightarrow> Inl e
                | Inr (u2, g2) \<Rightarrow>
                    if word_options_count u2 > 1 \<and> player_count u2 > 1 \<and> current_player u2 = 0
                    then Inr (start_handoff clock True [] u2, g2)
                    else if word_options_count u2 > 1 then Inr (start_reveal clock u2, g2)
                    else Inr (start_waiting u2, g2))))"

section \<open>Fuzzy matcher\<close>

text \<open>
  \<open>str.lower()\<close> on the code points below 256: the ASCII capitals and the Latin-1
  capitals 192 to 222 (without the multiplication sign 215) move up by 32, every other
  code point stays.
\<close>

definition lower_char :: "char \<Rightarrow> char" where
  "lower_char c =
     (let n = (of_char c :: nat) in
      if (65 \<le> n \<and> n \<le> 90) \<or> (192 \<le> n \<and> n \<le> 222 \<and> n \<noteq> 215)
      then char_of (n + 32) else c)"

definition str_lower :: "string \<Rightarrow> string" where
  "str_lower s = map lower_char s"

text \<open>\<open>w.startswith(p)\<close> and \<open>p in w\<close>.\<close>

definition startswith :: "'a list \<Rightarrow> 'a list \<Rightarrow> bool" where
  "startswith w p = (take (length p) w = p)"

fun contains :: "'a list \<Rightarrow> 'a list \<Rightarrow> bool" where
  "contains [] p = (p = [])"
| "contains (c # cs) p = (startswith (c # cs) p \<or> contains cs p)"

text \<open>
  The loops \<open>for k in range(limit, 0, -1)\<close> of \<open>tail_prefix_len\<close> and
  \<open>tail_any_len\<close>; \<open>f[-k:]\<close> is \<open>drop (length f - k) f\<close> for \<open>1 \<le> k \<le> len(f)\<close>.
\<close>

fun tail_prefix_loop :: "nat \<Rightarrow> 'a list \<Rightarrow> 'a list \<Rightarrow> nat" where
  "tail_prefix_loop 0 f w = 0"
| "tail_prefix_loop (Suc k) f w =
     (if startswith w (drop (length f - Suc k) f) then Suc k
      else tail_prefix_loop k f w)"

definition tail_prefix_len :: "'a list \<Rightarrow> 'a list \<Rightarrow> nat" where
  "tail_prefix_len f w = tail_prefix_loop (min (length f) (length w)) f w"

fun tail_any_loop :: "nat \<Rightarrow> 'a list \<Rightarrow> 'a list \<Rightarrow> nat" where
  "tail_any_loop 0 f w = 0"
| "tail_any_loop (Suc k) f w =
     (if contains w (drop (length f - Suc k) f) then Suc k
      else tail_any_loop k f w)"

definition tail_any_len :: "'a list \<Rightarrow> 'a list \<Rightarrow> nat" where
  "tail_any_len f w = tail_any_loop (min (length f) (length w)) f w"

text \<open>\<open>w.find(ch, idx)\<close>: the first position from \<open>idx\<close> on that holds \<open>ch\<close>, or \<open>-1\<close>.\<close>

fun find_loop :: "'a list \<Rightarrow> 'a \<Rightarrow> nat \<Rightarrow> nat \<Rightarrow> int" where
  "find_loop [] ch idx pos = - 1"
| "find_loop (c # cs) ch idx pos =
     (if idx \<le> pos \<and> c = ch then int pos else find_loop cs ch idx (Suc pos))"

definition str_find :: "'a list \<Rightarrow> 'a \<Rightarrow> nat \<Rightarrow> int" where
  "str_find w ch idx = find_loop w ch idx 0"

text \<open>The subsequence loop \<open>for ch in filt\<close> with its two counters \<open>idx\<close> and \<open>sub\<close>.\<close>

fun sub_loop :: "'a list \<Rightarrow> 'a list \<Rightarrow> nat \<Rightarrow> nat \<Rightarrow> nat" where
  "sub_loop [] w idx sub = sub"
| "sub_loop (ch # chs) w idx sub =
     (let found = str_find w ch idx in
      if found = - 1 then sub_loop chs w idx sub
      else sub_loop chs w (nat found + 1) (sub + 1))"

text \<open>The prefix loop \<open>for a, b in zip(filt, w)\<close>, left at the first mismatch.\<close>

fun prefix_loop :: "'a list \<Rightarrow> 'a list \<Rightarrow> nat \<Rightarrow> nat" where
  "prefix_loop (a # as) (b # bs) n = (if a = b then prefix_loop as bs (n + 1) else n)"
| "prefix_loop _ _ n = n"

text \<open>
  \<open>score(word)\<close> for a filter already in lower case. Python compares tuples
  lexicographically, as the order on products does here.
\<close>

definition score :: "string \<Rightarrow> string \<Rightarrow> int \<times> int \<times> int \<times> int \<times> int" where
  "score filt word =
     (let w = str_lower word
      in (int (tail_prefix_len filt w), int (tail_any_len filt w),
          int (prefix_loop filt w 0), int (sub_loop filt w 0 0), - int (length word)))"

text \<open>
  \<open>max(candidates, key=...)\<close> on a non-empty list: the running maximum is replaced
  only by a strictly greater key.
\<close>

fun max_loop :: "('a \<Rightarrow> 'k::linorder) \<Rightarrow> 'a \<Rightarrow> 'a list \<Rightarrow> 'a" where
  "max_loop key best [] = best"
| "max_loop key best (x # xs) = max_loop key (if key best < key x then x else best) xs"

definition best_random_choice :: "string list \<Rightarrow> ui_state \<Rightarrow> rng \<Rightarrow> py_error + (string \<times> rng)" where
  "best_random_choice WORDS u g =
     (case (case random_candidates u of None \<Rightarrow> [] | Some cs \<Rightarrow> cs) of
        [] \<Rightarrow> choose_word_for_source WORDS ''random'' g
      | c # cs \<Rightarrow>
          (let filt = str_lower (random_filter u) in
           if filt = [] then Inr (c, g)
           else Inr (max_loop (score filt) c cs, g)))"

section \<open>Word selection flows and timers\<close>

definition enter_random_pick :: "string list \<Rightarrow> ui_state \<Rightarrow> rng \<Rightarrow> py_error + (ui_state \<times> rng)" where
  "enter_random_pick WORDS u g =
     (let u1 = u\<lparr>screen := ''random_pick''\<rparr> in
      case best_random_choice WORDS u1 g of
        Inl e \<Rightarrow> Inl e
      | Inr (top_word, g1) \<Rightarrow> Inr (u1, g1))"

definition enter_random_simple :: "ui_state \<Rightarrow> py_error + ui_state" where
  "enter_random_simple u =
     (let u1 = u\<lparr>screen := ''random_simple''\<rparr> in
      case (case simple_candidates u1 of None \<Rightarrow> [] | Some cs \<Rightarrow> cs) of
        [] \<Rightarrow> Inr u1
      | c # cs \<Rightarrow>
          (case py_index (c # cs) (simple_index u1) of
             Inl e \<Rightarrow> Inl e
           | Inr word \<Rightarrow> Inr u1))"

definition start_random_flow :: "string list \<Rightarrow> real \<Rightarrow> ui_state \<Rightarrow> rng \<Rightarrow> py_error + (ui_state \<times> rng)" where
  "start_random_flow WORDS clock u g =
     (if word_options_count u \<le> 1 then
        (case choose_word_for_source WORDS ''random'' g of
           Inl e \<Rightarrow> Inl e
         | Inr (w, g1) \<Rightarrow>
             prepare_word_and_start WORDS clock
               (u\<lparr>chosen_word := w, random_candidates := Some [], random_filter := []\<rparr>) g1)
      else
        (case sample WORDS (min (word_options_count u) (int (length WORDS))) g of
           Inl e \<Rightarrow> Inl e
         | Inr (cs, g1) \<Rightarrow>
             enter_random_pick WORDS (u\<lparr>random_candidates := Some cs, random_filter := []\<rparr>) g1))"

definition start_random_simple :: "string list \<Rightarrow> real \<Rightarrow> ui_state \<Rightarrow> rng \<Rightarrow> py_error + (ui_state \<times> rng)" where
  "start_random_simple WORDS clock u g =
     (if word_options_count u \<le> 1 then
        (case choose_word_for_source WORDS ''random'' g of
           Inl e \<Rightarrow> Inl e
         | Inr (w, g1) \<Rightarrow>
             prepare_word_and_start WORDS clock
               (u\<lparr>chosen_word := w, simple_candidates := Some [], simple_index := 0\<rparr>) g1)
      else
        (let pool_size = int (length WORDS);
             count = (if word_options_count u > 0 then word_options_count u else pool_size);
             count = max 1 (min count pool_size)
         in case sample WORDS count g of
              Inl e \<Rightarrow> Inl e
            | Inr (cs, g1) \<Rightarrow>
                (case enter_random_simple
                        (u\<lparr>simple_candidates := Some cs, simple_index := 0,
                           simple_hold_started := False, simple_hold_until := 0\<rparr>) of
                   Inl e \<Rightarrow> Inl e
                 | Inr u1 \<Rightarrow> Inr (u1, g1))))"

definition lock_random_simple_choice :: "string list \<Rightarrow> real \<Rightarrow> ui_state \<Rightarrow> rng \<Rightarrow> py_error + (ui_state \<times> rng)" where
  "lock_random_simple_choice WORDS clock u g =
     (case (case (case simple_candidates u of None \<Rightarrow> [] | Some cs \<Rightarrow> cs) of
              [] \<Rightarrow> choose_word_for_source WORDS ''random'' g
            | c # cs \<Rightarrow>
                (case py_index (c # cs) (simple_index u) of
                   Inl e \<Rightarrow> Inl e
                 | Inr w \<Rightarrow> Inr (w, g))) of
        Inl e \<Rightarrow> Inl e
      | Inr (w, g1) \<Rightarrow>
          prepare_word_and_start WORDS clock
            (u\<lparr>chosen_word := w, simple_hold_started := False, simple_hold_until := 0\<rparr>) g1)"

text \<open>
  \<open>update_timers(now)\<close>. \<open>clock\<close> is the reading of \<open>time.monotonic()\<close> taken by the
  function a fired timer calls.
\<close>

definition update_timers :: "string list \<Rightarrow> real \<Rightarrow> real \<Rightarrow> ui_state \<Rightarrow> rng \<Rightarrow> py_error + (ui_state \<times> rng)" where
  "update_timers WORDS clock now u g =
     (if screen u = ''random_simple'' \<and> simple_hold_started u
         \<and> simple_hold_until u > 0 \<and> now \<ge> simple_hold_until u
      then lock_random_simple_choice WORDS clock u g
      else if screen u = ''reveal'' \<and> now \<ge> reveal_until u then
        (if current_player u + 1 \<ge> player_count u
         then Inr ((advance_player u)\<lparr>scroll_block_until := now + 1\<rparr>, g)
         else Inr ((start_handoff now True [] u)\<lparr>scroll_block_until := now + 1\<rparr>, g))
      else if screen u = ''handoff'' \<and> now \<ge> handoff_until u then
        (case (if handoff_pending_action u \<noteq> [] then
                 (let action = handoff_pending_action u;
                      u1 = u\<lparr>handoff_pending_action := []\<rparr>
                  in if action = ''enter_word_entry'' then Inr (enter_word_entry u1, g)
                     else if action = ''start_random_flow'' then start_random_flow WORDS clock u1 g
                     else if action = ''start_random_simple'' then start_random_simple WORDS clock u1 g
                     else if action = ''prepare_word_and_start'' then prepare_word_and_start WORDS clock u1 g
                     else Inr (u1, g))
               else if handoff_advance u then Inr (advance_player u, g)
               else Inr (start_waiting u, g)) of
           Inl e \<Rightarrow> Inl e
         | Inr (u2, g2) \<Rightarrow> Inr (u2\<lparr>scroll_block_until := now + 1\<rparr>, g2))
      else Inr (u, g))"

section \<open>Properties of the scroll debouncer\<close>

lemmas scroll_consts = MIN_SCROLL_INTERVAL_def SCROLL_GAP_SECONDS_def SCROLL_BUFFER_SECONDS_def

lemma handle_scroll_rejected:
  "now - last_trigger_time s < MIN_SCROLL_INTERVAL \<Longrightarrow> handle_scroll direction now block s = (s, None)"
  by (simp add: handle_scroll_def)

lemma update_scroll_state_trigger [simp]:
  "last_trigger_time (update_scroll_state now s) = last_trigger_time s"
  by (simp add: update_scroll_state_def)

lemma handle_scroll_trigger:
  "MIN_SCROLL_INTERVAL \<le> now - last_trigger_time s \<Longrightarrow> block \<le> now \<Longrightarrow>
   last_trigger_time (fst (handle_scroll direction now block s)) = now"
  by (simp add: handle_scroll_def Let_def)

text \<open>
  While every loop iteration comes less than 0.8 s after the last accepted trigger,
  nothing is emitted and the trigger time stays.
\<close>

lemma run_scroll_quiet:
  "\<forall>e \<in> set es. fst e - last_trigger_time s < MIN_SCROLL_INTERVAL \<Longrightarrow>
   snd (run_scroll s es) = [] \<and> last_trigger_time (fst (run_scroll s es)) = last_trigger_time s"
proof (induction es arbitrary: s)
  case Nil
  then show ?case by simp
next
  case (Cons e es)
  obtain t b i where e: "e = (t, b, i)" by (cases e)
  let ?s1 = "update_scroll_state t s"
  have later: "\<forall>e \<in> set es. fst e - last_trigger_time ?s1 < MIN_SCROLL_INTERVAL"
    using Cons.prems by simp
  have first: "t - last_trigger_time ?s1 < MIN_SCROLL_INTERVAL"
    using Cons.prems e by simp
  show ?case
  proof (cases i)
    case None
    then show ?thesis using Cons.IH [OF later] e by simp
  next
    case (Some d)
    have "handle_scroll d t b ?s1 = (?s1, None)"
      using first by (rule handle_scroll_rejected)
    then show ?thesis using Cons.IH [OF later] e Some by (simp add: case_prod_unfold)
  qed
qed

text \<open>
  Claim C1, as the code has it. A pulse whose direction differs from the recorded
  direction emits a gesture exactly when the pulse is accepted: it arrives at least
  0.8 s after the last accepted trigger and not before \<open>scroll_block_until\<close>. The claim
  as written (emission for every arrival time) fails: the re-trigger guard returns
  before the direction is looked at.
\<close>

theorem direction_change_emits_iff_accepted:
  assumes "last_direction s \<noteq> Some direction"
  shows "snd (handle_scroll direction now block s) = Some direction
         \<longleftrightarrow> MIN_SCROLL_INTERVAL \<le> now - last_trigger_time s \<and> block \<le> now"
  using assms by (auto simp add: handle_scroll_def Let_def)

theorem direction_change_emits_iff_accepted_witness:
  "last_direction \<lparr>active = True, last_time = 1, last_direction = Some ''down'', last_trigger_time = 1\<rparr> \<noteq> Some ''up''
   \<and> snd (handle_scroll ''up'' 2 0 \<lparr>active = True, last_time = 1, last_direction = Some ''down'', last_trigger_time = 1\<rparr>) = Some ''up''
   \<and> MIN_SCROLL_INTERVAL \<le> 2 - last_trigger_time \<lparr>active = True, last_time = 1, last_direction = Some ''down'', last_trigger_time = 1\<rparr>"
  using direction_change_emits_iff_accepted
    [of "\<lparr>active = True, last_time = 1, last_direction = Some ''down'', last_trigger_time = 1\<rparr>" "''up''" 2 0]
  by (simp add: scroll_consts)

text \<open>
  The counterexample to C1: from the initial debouncer, a pulse \<open>down\<close> at 1 s is
  accepted; the pulse \<open>up\<close> at 1.5 s changes direction and emits nothing.
\<close>

theorem direction_change_rejected_counterexample:
  "snd (run_scroll scroll_state0 [(1, 0, Some ''down''), (3/2, 0, Some ''up'')]) = [''down'']"
  by (simp add: scroll_state0_def handle_scroll_def update_scroll_state_def scroll_consts)

text \<open>
  Claim C2, as the code has it. A run starts with a pulse that is accepted and emits
  (the debouncer is idle, or its last pulse is more than 0.8 s old, or the direction
  differs). When every later loop iteration of the run, with or without a pulse and of
  whatever direction, comes less than 0.8 s after that first pulse, the run emits
  exactly one gesture, the first pulse's.
\<close>

theorem run_within_window_emits_once:
  assumes "MIN_SCROLL_INTERVAL \<le> t0 - last_trigger_time s" and "b0 \<le> t0"
    and "\<not> active s \<or> SCROLL_GAP_SECONDS < t0 - last_time s \<or> last_direction s \<noteq> Some d"
    and "\<forall>e \<in> set es. fst e - t0 < MIN_SCROLL_INTERVAL"
  shows "snd (run_scroll s ((t0, b0, Some d) # es)) = [d]"
proof -
  let ?s1 = "update_scroll_state t0 s"
  let ?s2 = "fst (handle_scroll d t0 b0 ?s1)"
  have accepted: "MIN_SCROLL_INTERVAL \<le> t0 - last_trigger_time ?s1"
    using assms(1) by simp
  have emitted: "snd (handle_scroll d t0 b0 ?s1) = Some d"
    using assms(1-3) by (auto simp add: handle_scroll_def update_scroll_state_def Let_def)
  have "last_trigger_time ?s2 = t0"
    using accepted assms(2) by (rule handle_scroll_trigger)
  with assms(4) have "\<forall>e \<in> set es. fst e - last_trigger_time ?s2 < MIN_SCROLL_INTERVAL"
    by simp
  then have "snd (run_scroll ?s2 es) = []"
    using run_scroll_quiet by blast
  with emitted show ?thesis by (simp add: case_prod_unfold)
qed

theorem run_within_window_emits_once_witness:
  "MIN_SCROLL_INTERVAL \<le> 1 - last_trigger_time scroll_state0 \<and> (0::real) \<le> 1
   \<and> snd (run_scroll scroll_state0
        [(1, 0, Some ''down''), (5/4, 0, Some ''down''), (3/2, 0, None), (17/10, 0, Some ''up'')]) = [''down'']"
  using run_within_window_emits_once
    [of 1 scroll_state0 0 "''down''" "[(5/4, 0, Some ''down''), (3/2, 0, None), (17/10, 0, Some ''up'')]"]
  by (simp add: scroll_state0_def scroll_consts)

text \<open>
  The counterexample to C2: three pulses \<open>down\<close> at 1 s, 1.5 s and 2 s, each less than
  0.8 s after the one before, emit two gestures. The pulse at 1.5 s is rejected and
  leaves \<open>last_time\<close> at 1 s, so the pulse at 2 s is accepted and emits.
\<close>

theorem long_run_emits_twice_counterexample:
  "snd (run_scroll scroll_state0 [(1, 0, Some ''down''), (3/2, 0, Some ''down''), (2, 0, Some ''down'')])
     = [''down'', ''down'']
   \<and> (3/2 :: real) - 1 < SCROLL_BUFFER_SECONDS \<and> (2 :: real) - 3/2 < SCROLL_BUFFER_SECONDS"
  by (simp add: scroll_state0_def handle_scroll_def update_scroll_state_def scroll_consts)

section \<open>Properties of the session\<close>

subsection \<open>Reset\<close>

text \<open>
  Claim C5, as the code has it. After \<open>reset_idle\<close> every session field other than
  \<open>mode_index\<close> and \<open>scroll_block_until\<close> holds its initial value (the two candidate
  lists are empty), the screen is the idle screen, and a tick of \<open>update_timers\<close> at
  any time fires nothing: no reveal, handoff or hold deadline acts on the new state.
\<close>

theorem reset_idle_clears_session:
  "(reset_idle u)\<lparr>mode_index := m, scroll_block_until := b\<rparr>
     = ui_state0\<lparr>mode_index := m, scroll_block_until := b,
                 random_candidates := Some [], simple_candidates := Some []\<rparr>
   \<and> screen (reset_idle u) = ''idle''
   \<and> update_timers WORDS clock now (reset_idle u) g = Inr (reset_idle u, g)"
  by (simp add: update_timers_def reset_idle_def ui_state0_def)

theorem reset_idle_clears_session_witness:
  "screen (reset_idle (ui_state0\<lparr>screen := ''reveal'', reveal_until := 7, current_player := 2\<rparr>)) = ''idle''
   \<and> update_timers [] 9 9 (reset_idle (ui_state0\<lparr>screen := ''reveal'', reveal_until := 7, current_player := 2\<rparr>)) (\<lambda>n. n)
       = Inr (reset_idle (ui_state0\<lparr>screen := ''reveal'', reveal_until := 7, current_player := 2\<rparr>), \<lambda>n. n)"
  using reset_idle_clears_session
    [where u = "ui_state0\<lparr>screen := ''reveal'', reveal_until := 7, current_player := 2\<rparr>"
       and WORDS = "[]" and clock = 9 and now = 9 and g = "\<lambda>n. n"]
  by simp

text \<open>
  The counterexample to C5: \<open>reset_idle\<close> assigns neither \<open>mode_index\<close> nor
  \<open>scroll_block_until\<close>. A session with mode index 2 and a scroll block until 5 s keeps
  both through the reset, and the kept deadline still suppresses a gesture at 4 s that
  the initial state would emit.
\<close>

theorem reset_idle_keeps_two_fields_counterexample:
  "mode_index (reset_idle (ui_state0\<lparr>mode_index := 2, scroll_block_until := 5\<rparr>)) = 2
   \<and> mode_index ui_state0 = 0
   \<and> scroll_block_until (reset_idle (ui_state0\<lparr>mode_index := 2, scroll_block_until := 5\<rparr>)) = 5
   \<and> scroll_block_until ui_state0 = 0
   \<and> snd (handle_scroll ''down'' 4
            (scroll_block_until (reset_idle (ui_state0\<lparr>mode_index := 2, scroll_block_until := 5\<rparr>)))
            scroll_state0) = None
   \<and> snd (handle_scroll ''down'' 4 (scroll_block_until ui_state0) scroll_state0) = Some ''down''"
  by (simp add: reset_idle_def ui_state0_def handle_scroll_def scroll_state0_def scroll_consts)

subsection \<open>Confirm screen\<close>

text \<open>
  Claim C8. Whatever the builtin \<open>int\<close> does on the three buffers: a player-count
  buffer it rejects gives \<open>player_count = 1\<close>, an option-count buffer it rejects gives
  \<open>word_options_count = 0\<close>, a percent buffer it rejects gives
  \<open>imposter_all_chance = 0\<close>, and the percent lies in 0 to 100 in every case.
\<close>

theorem enter_confirm_defensive:
  "(parse (input_buffer u) = None \<longrightarrow> player_count (enter_confirm parse u) = 1)
   \<and> (parse (or_zero (word_count_buffer u)) = None \<longrightarrow> word_options_count (enter_confirm parse u) = 0)
   \<and> (parse (or_zero (imposter_percent_buffer u)) = None \<longrightarrow> imposter_all_chance (enter_confirm parse u) = 0)
   \<and> 0 \<le> imposter_all_chance (enter_confirm parse u)
   \<and> imposter_all_chance (enter_confirm parse u) \<le> 100
   \<and> screen (enter_confirm parse u) = ''confirm''"
  by (simp add: enter_confirm_def Let_def split: option.split)

theorem enter_confirm_defensive_witness:
  "py_int ''x'' = None \<and> py_int (or_zero ''1y'') = None \<and> py_int (or_zero '' '') = None
   \<and> player_count (enter_confirm py_int
        (ui_state0\<lparr>input_buffer := ''x'', word_count_buffer := ''1y'', imposter_percent_buffer := '' ''\<rparr>)) = 1
   \<and> word_options_count (enter_confirm py_int
        (ui_state0\<lparr>input_buffer := ''x'', word_count_buffer := ''1y'', imposter_percent_buffer := '' ''\<rparr>)) = 0
   \<and> imposter_all_chance (enter_confirm py_int
        (ui_state0\<lparr>input_buffer := ''x'', word_count_buffer := ''1y'', imposter_percent_buffer := '' ''\<rparr>)) = 0"
  using enter_confirm_defensive [of py_int
      "ui_state0\<lparr>input_buffer := ''x'', word_count_buffer := ''1y'', imposter_percent_buffer := '' ''\<rparr>"]
  by (simp add: py_int_def is_digit_def is_space_def strip_def or_zero_def)

text \<open>
  Claim C10. After \<open>enter_confirm\<close>, for every content of the buffers and whatever the
  builtin \<open>int\<close> returns on them: \<open>player_count \<ge> 1\<close>, \<open>word_options_count \<ge> 0\<close> and
  \<open>imposter_all_chance\<close> in 0 to 100. A player-count buffer that parses to 0 gives 1,
  and so does the empty buffer, which \<open>int\<close> rejects.
\<close>

theorem enter_confirm_bounds:
  "1 \<le> player_count (enter_confirm parse u)
   \<and> 0 \<le> word_options_count (enter_confirm parse u)
   \<and> 0 \<le> imposter_all_chance (enter_confirm parse u)
   \<and> imposter_all_chance (enter_confirm parse u) \<le> 100
   \<and> (parse (input_buffer u) = Some 0 \<longrightarrow> player_count (enter_confirm parse u) = 1)
   \<and> (input_buffer u = [] \<longrightarrow> player_count (enter_confirm py_int u) = 1)"
  by (simp add: enter_confirm_def Let_def py_int_def strip_def split: option.split)

theorem enter_confirm_bounds_witness:
  "py_int (input_buffer (ui_state0\<lparr>input_buffer := ''0'', imposter_percent_buffer := ''250''\<rparr>)) = Some 0
   \<and> player_count (enter_confirm py_int (ui_state0\<lparr>input_buffer := ''0'', imposter_percent_buffer := ''250''\<rparr>)) = 1
   \<and> imposter_all_chance (enter_confirm py_int (ui_state0\<lparr>input_buffer := ''0'', imposter_percent_buffer := ''250''\<rparr>)) = 100
   \<and> input_buffer ui_state0 = []
   \<and> player_count (enter_confirm py_int ui_state0) = 1"
  using enter_confirm_bounds [of py_int "ui_state0\<lparr>input_buffer := ''0'', imposter_percent_buffer := ''250''\<rparr>"]
    enter_confirm_bounds [of py_int ui_state0]
  by (simp add: py_int_def is_digit_def is_space_def strip_def max_str_digits_def digits_value_def
      or_zero_def enter_confirm_def ui_state0_def)

subsection \<open>Role assignment\<close>

lemma randint_range:
  assumes "a \<le> b"
  shows "\<exists>r. randint a b g = Inr (r, rest g) \<and> a \<le> r \<and> r \<le> b"
proof -
  have "0 < nat (b - a + 1)" using assms by simp
  then have "g 0 mod nat (b - a + 1) < nat (b - a + 1)" by (rule mod_less_divisor)
  then have "int (g 0 mod nat (b - a + 1)) \<le> b - a" by linarith
  then show ?thesis using assms by (simp add: randint_def)
qed

lemma randint_onto:
  assumes "a \<le> v" and "v \<le> b"
  shows "randint a b (\<lambda>n. nat (v - a)) = Inr (v, rest (\<lambda>n. nat (v - a)))"
  using assms by (simp add: randint_def)

lemma assign_imposter_single:
  "player_count u \<le> 1 \<Longrightarrow>
   assign_imposter u g = Inr (u\<lparr>imposter_index := None, all_imposter_except_first := False\<rparr>, g)"
  by (simp add: assign_imposter_def)

lemma assign_imposter_all:
  "1 < player_count u \<Longrightarrow> randint 1 100 g = Inr (roll, g1) \<Longrightarrow> roll \<le> imposter_all_chance u \<Longrightarrow>
   assign_imposter u g = Inr (u\<lparr>all_imposter_except_first := True, imposter_index := None\<rparr>, g1)"
  by (simp add: assign_imposter_def)

lemma assign_imposter_from_one:
  "1 < player_count u \<Longrightarrow> randint 1 100 g = Inr (roll, g1) \<Longrightarrow> imposter_all_chance u < roll \<Longrightarrow>
   first_player_spared u \<Longrightarrow> randint 1 (player_count u - 1) g1 = Inr (i, g2) \<Longrightarrow>
   assign_imposter u g = Inr (u\<lparr>all_imposter_except_first := False, imposter_index := Some i\<rparr>, g2)"
  by (auto simp add: assign_imposter_def first_player_spared_def Let_def split: option.splits)

lemma assign_imposter_from_zero:
  "1 < player_count u \<Longrightarrow> randint 1 100 g = Inr (roll, g1) \<Longrightarrow> imposter_all_chance u < roll \<Longrightarrow>
   \<not> first_player_spared u \<Longrightarrow> randint 0 (player_count u - 1) g1 = Inr (i, g2) \<Longrightarrow>
   assign_imposter u g = Inr (u\<lparr>all_imposter_except_first := False, imposter_index := Some i\<rparr>, g2)"
  by (auto simp add: assign_imposter_def first_player_spared_def Let_def split: option.splits)

text \<open>
  Claim C3. \<open>assign_imposter\<close> never raises and follows the case analysis: with at
  most one player there is no imposter index and the all-but-first flag is off; otherwise
  a roll is drawn from 1 to 100 and a roll up to \<open>imposter_all_chance\<close> sets the flag and
  no index; otherwise the index is the next draw, from 1 to \<open>player_count - 1\<close> when
  player 0 is spared and from 0 to \<open>player_count - 1\<close> when not. An index and the flag
  are never set together. Each draw is \<open>randint\<close> on exactly that range, and
  \<open>randint\<close> reaches every value of its range (\<open>randint_onto\<close>).
\<close>

theorem assign_imposter_cases:
  "(player_count u \<le> 1 \<longrightarrow>
      assign_imposter u g = Inr (u\<lparr>imposter_index := None, all_imposter_except_first := False\<rparr>, g))
   \<and> (1 < player_count u \<longrightarrow>
        (\<exists>roll. randint 1 100 g = Inr (roll, rest g) \<and> 1 \<le> roll \<and> roll \<le> 100
           \<and> (roll \<le> imposter_all_chance u \<longrightarrow>
                 assign_imposter u g
                   = Inr (u\<lparr>all_imposter_except_first := True, imposter_index := None\<rparr>, rest g))
           \<and> (imposter_all_chance u < roll \<longrightarrow>
                 (\<exists>i. randint (if first_player_spared u then 1 else 0) (player_count u - 1) (rest g)
                        = Inr (i, rest (rest g))
                      \<and> (if first_player_spared u then 1 else 0) \<le> i \<and> i \<le> player_count u - 1
                      \<and> assign_imposter u g
                          = Inr (u\<lparr>all_imposter_except_first := False, imposter_index := Some i\<rparr>,
                                 rest (rest g))))))
   \<and> (\<exists>u' g'. assign_imposter u g = Inr (u', g')
         \<and> \<not> (imposter_index u' \<noteq> None \<and> all_imposter_except_first u'))"
proof (cases "player_count u \<le> 1")
  case True
  then show ?thesis by (simp add: assign_imposter_single)
next
  case False
  then have many: "1 < player_count u" by simp
  obtain roll where roll: "randint 1 100 g = Inr (roll, rest g)" "1 \<le> roll" "roll \<le> 100"
    using randint_range [of 1 100 g] by auto
  show ?thesis
  proof (cases "roll \<le> imposter_all_chance u")
    case True
    have "assign_imposter u g
            = Inr (u\<lparr>all_imposter_except_first := True, imposter_index := None\<rparr>, rest g)"
      using many roll(1) True by (rule assign_imposter_all)
    then show ?thesis using many roll True by simp
  next
    case False
    then have above: "imposter_all_chance u < roll" by simp
    let ?lo = "if first_player_spared u then 1 else 0 :: int"
    have "?lo \<le> player_count u - 1" using many by simp
    then obtain i where i: "randint ?lo (player_count u - 1) (rest g) = Inr (i, rest (rest g))"
        "?lo \<le> i" "i \<le> player_count u - 1"
      using randint_range [of ?lo "player_count u - 1" "rest g"] by auto
    have res: "assign_imposter u g
            = Inr (u\<lparr>all_imposter_except_first := False, imposter_index := Some i\<rparr>, rest (rest g))"
    proof (cases "first_player_spared u")
      case True
      with i(1) have "randint 1 (player_count u - 1) (rest g) = Inr (i, rest (rest g))" by simp
      with many roll(1) above True show ?thesis by (rule assign_imposter_from_one)
    next
      case False
      with i(1) have "randint 0 (player_count u - 1) (rest g) = Inr (i, rest (rest g))" by simp
      with many roll(1) above False show ?thesis by (rule assign_imposter_from_zero)
    qed
    have "\<exists>i. randint ?lo (player_count u - 1) (rest g) = Inr (i, rest (rest g))
              \<and> ?lo \<le> i \<and> i \<le> player_count u - 1
              \<and> assign_imposter u g
                  = Inr (u\<lparr>all_imposter_except_first := False, imposter_index := Some i\<rparr>, rest (rest g))"
      using i res by blast
    moreover have "\<exists>u' g'. assign_imposter u g = Inr (u', g')
         \<and> \<not> (imposter_index u' \<noteq> None \<and> all_imposter_except_first u')"
      using res by simp
    ultimately show ?thesis using many roll above by auto
  qed
qed


theorem assign_imposter_cases_witness:
  "1 < player_count (ui_state0\<lparr>player_count := 4\<rparr>)
   \<and> randint 1 100 (\<lambda>n. n) = Inr (1, rest (\<lambda>n. n))
   \<and> imposter_all_chance (ui_state0\<lparr>player_count := 4\<rparr>) < 1
   \<and> assign_imposter (ui_state0\<lparr>player_count := 4\<rparr>) (\<lambda>n. n)
       = Inr (ui_state0\<lparr>player_count := 4, imposter_index := Some 1\<rparr>, rest (rest (\<lambda>n. n)))
   \<and> player_count ui_state0 \<le> 1
   \<and> assign_imposter ui_state0 (\<lambda>n. n) = Inr (ui_state0, \<lambda>n. n)"
  using assign_imposter_cases [of "ui_state0\<lparr>player_count := 4\<rparr>" "\<lambda>n. n"]
    assign_imposter_cases [of ui_state0 "\<lambda>n. n"]
  by (simp add: ui_state0_def randint_def rest_def first_player_spared_def)

subsection \<open>Reveal and handoff timers\<close>

text \<open>
  A fired handoff timer that returns sets the gesture suppression window.
\<close>

lemma handoff_timer_sets_block:
  assumes "screen v = ''handoff''" and "handoff_until v \<le> now"
    and "update_timers WORDS clock now v h = Inr (v', h')"
  shows "scroll_block_until v' = now + 1"
  using assms
  by (auto simp add: update_timers_def split: sum.splits if_splits)

text \<open>
  Claim C7. \<open>start_reveal\<close> sets the deadline to its entry time plus 3 s. On a tick at
  or after the deadline of the reveal screen, \<open>update_timers\<close> runs \<open>advance_player\<close>
  when \<open>current_player + 1 \<ge> player_count\<close>, which ends on the done screen, and
  \<open>start_handoff\<close> otherwise, which enters the handoff screen; both set
  \<open>scroll_block_until\<close> to \<open>now + 1\<close>, and so does every fired handoff timer that
  returns.
\<close>

theorem reveal_timer_transition:
  assumes "screen u = ''reveal''" and "reveal_until u \<le> now"
  shows "update_timers WORDS clock now u g
           = Inr ((if player_count u \<le> current_player u + 1 then advance_player u
                   else start_handoff now True [] u)\<lparr>scroll_block_until := now + 1\<rparr>, g)
         \<and> (player_count u \<le> current_player u + 1 \<longrightarrow> screen (advance_player u) = ''done'')
         \<and> (current_player u + 1 < player_count u \<longrightarrow> screen (start_handoff now True [] u) = ''handoff'')
         \<and> reveal_until (start_reveal t u) = t + 3
         \<and> (\<forall>v h v' h'. screen v = ''handoff'' \<and> handoff_until v \<le> now
                \<and> update_timers WORDS clock now v h = Inr (v', h') \<longrightarrow> scroll_block_until v' = now + 1)"
proof -
  have fired: "update_timers WORDS clock now u g
           = Inr ((if player_count u \<le> current_player u + 1 then advance_player u
                   else start_handoff now True [] u)\<lparr>scroll_block_until := now + 1\<rparr>, g)"
    using assms by (simp add: update_timers_def)
  have finished: "player_count u \<le> current_player u + 1 \<longrightarrow> screen (advance_player u) = ''done''"
    by (simp add: advance_player_def Let_def)
  have handoff: "screen (start_handoff now True [] u) = ''handoff''"
    by (simp add: start_handoff_def)
  have entry: "reveal_until (start_reveal t u) = t + 3"
    by (simp add: start_reveal_def)
  show ?thesis
    using fired finished handoff entry handoff_timer_sets_block by blast
qed

theorem reveal_timer_transition_witness:
  "screen (start_reveal 10 (ui_state0\<lparr>player_count := 3, current_player := 2\<rparr>)) = ''reveal''
   \<and> reveal_until (start_reveal 10 (ui_state0\<lparr>player_count := 3, current_player := 2\<rparr>)) \<le> 13
   \<and> update_timers [] 13 13 (start_reveal 10 (ui_state0\<lparr>player_count := 3, current_player := 2\<rparr>)) (\<lambda>n. n)
       = Inr (ui_state0\<lparr>player_count := 3, current_player := 3, screen := ''done'',
                        reveal_until := 13, scroll_block_until := 14\<rparr>, \<lambda>n. n)
   \<and> update_timers [] 13 13 (start_reveal 10 (ui_state0\<lparr>player_count := 3, current_player := 0\<rparr>)) (\<lambda>n. n)
       = Inr (ui_state0\<lparr>player_count := 3, current_player := 0, screen := ''handoff'',
                        reveal_until := 13, handoff_until := 16, scroll_block_until := 14\<rparr>, \<lambda>n. n)"
  using reveal_timer_transition
     [where u = "start_reveal 10 (ui_state0\<lparr>player_count := 3, current_player := 2\<rparr>)"
        and now = 13 and WORDS = "[]" and clock = 13 and g = "\<lambda>n. n" and t = 0]
    reveal_timer_transition
     [where u = "start_reveal 10 (ui_state0\<lparr>player_count := 3, current_player := 0\<rparr>)"
        and now = 13 and WORDS = "[]" and clock = 13 and g = "\<lambda>n. n" and t = 0]
  by (simp add: start_reveal_def ui_state0_def advance_player_def start_handoff_def)

section \<open>Properties of the fuzzy matcher\<close>

lemma startswith_iff: "startswith w p \<longleftrightarrow> (\<exists>s. w = p @ s)"
proof
  assume "startswith w p"
  then have "w = p @ drop (length p) w"
    unfolding startswith_def by (metis append_take_drop_id)
  then show "\<exists>s. w = p @ s" ..
next
  assume "\<exists>s. w = p @ s"
  then show "startswith w p" by (auto simp add: startswith_def)
qed

lemma contains_iff: "contains w p \<longleftrightarrow> (\<exists>a b. w = a @ p @ b)"
proof (induction w)
  case Nil
  then show ?case by simp
next
  case (Cons c cs)
  show ?case
  proof
    assume "contains (c # cs) p"
    then consider "startswith (c # cs) p" | "contains cs p" by auto
    then show "\<exists>a b. c # cs = a @ p @ b"
    proof cases
      case 1
      then obtain s where "c # cs = p @ s" using startswith_iff by blast
      then have "c # cs = [] @ p @ s" by simp
      then show ?thesis by blast
    next
      case 2
      then obtain a b where "cs = a @ p @ b" using Cons.IH by blast
      then have "c # cs = (c # a) @ p @ b" by simp
      then show ?thesis by blast
    qed
  next
    assume "\<exists>a b. c # cs = a @ p @ b"
    then obtain a b where ab: "c # cs = a @ p @ b" by blast
    show "contains (c # cs) p"
    proof (cases a)
      case Nil
      with ab have "startswith (c # cs) p" using startswith_iff by fastforce
      then show ?thesis by simp
    next
      case (Cons a0 as)
      with ab have "cs = as @ p @ b" by simp
      then have "contains cs p" using Cons.IH by blast
      then show ?thesis by simp
    qed
  qed
qed
































text \<open>
  Claim C9. For the candidates apple, apricot, banana and the filter \<open>ap\<close> the result
  is apple.
\<close>

theorem apple_apricot_banana_scenario:
  "best_random_choice WORDS
     (u\<lparr>random_candidates := Some [''apple'', ''apricot'', ''banana''], random_filter := ''ap''\<rparr>) g
   = Inr (''apple'', g)"
  by (simp add: best_random_choice_def score_def str_lower_def lower_char_def
      tail_prefix_len_def tail_any_len_def startswith_def str_find_def)

section \<open>Properties of the word selection flows\<close>

lemma sample_loop_length:
  "k \<le> length xs \<Longrightarrow> length (fst (sample_loop xs k g)) = k"
proof (induction k arbitrary: xs g)
  case 0
  then show ?case by simp
next
  case (Suc k)
  let ?i = "g 0 mod length xs"
  have pos: "0 < length xs" using Suc.prems by (cases xs) simp_all
  then have "?i < length xs" by simp
  then have "length (take ?i xs @ drop (Suc ?i) xs) = length xs - 1" by simp
  with Suc.prems have "k \<le> length (take ?i xs @ drop (Suc ?i) xs)" by simp
  then have "length (fst (sample_loop (take ?i xs @ drop (Suc ?i) xs) k (rest g))) = k"
    by (rule Suc.IH)
  then show ?case by (simp add: Let_def case_prod_unfold)
qed

lemma sample_size:
  assumes "0 \<le> k" and "k \<le> int (length xs)"
  shows "\<exists>cs g'. sample xs k g = Inr (cs, g') \<and> int (length cs) = k"
proof -
  have "nat k \<le> length xs" using assms by simp
  then have "length (fst (sample_loop xs (nat k) g)) = nat k" by (rule sample_loop_length)
  then have "sample xs k g = Inr (fst (sample_loop xs (nat k) g), snd (sample_loop xs (nat k) g))
      \<and> int (length (fst (sample_loop xs (nat k) g))) = k"
    using assms by (simp add: sample_def)
  then show ?thesis by blast
qed

lemma choose_word_for_source_returns:
  "\<exists>w g'. choose_word_for_source WORDS src g = Inr (w, g')"
  by (simp add: choose_word_for_source_def choice_def)

lemma best_random_choice_returns:
  "\<exists>w g'. best_random_choice WORDS u g = Inr (w, g')"
  using choose_word_for_source_returns [of WORDS "''random''" g]
  by (auto simp add: best_random_choice_def Let_def split: option.split list.split)

lemma enter_random_pick_returns:
  "\<exists>g'. enter_random_pick WORDS u g = Inr (u\<lparr>screen := ''random_pick''\<rparr>, g')"
  using best_random_choice_returns [of WORDS "u\<lparr>screen := ''random_pick''\<rparr>" g]
  by (auto simp add: enter_random_pick_def Let_def)

text \<open>
  The random flow caps the sample at the pool size and returns, for every pool.
\<close>

lemma start_random_flow_sample:
  assumes "1 < word_options_count u"
  shows "\<exists>cs g'. start_random_flow WORDS clock u g
            = Inr (u\<lparr>random_candidates := Some cs, random_filter := [], screen := ''random_pick''\<rparr>, g')
          \<and> int (length cs) = min (word_options_count u) (int (length WORDS))"
proof -
  let ?k = "min (word_options_count u) (int (length WORDS))"
  have "0 \<le> ?k" and "?k \<le> int (length WORDS)" using assms by simp_all
  then obtain cs g1 where cs: "sample WORDS ?k g = Inr (cs, g1)" "int (length cs) = ?k"
    using sample_size by blast
  obtain g2 where "enter_random_pick WORDS (u\<lparr>random_candidates := Some cs, random_filter := []\<rparr>) g1
      = Inr (u\<lparr>random_candidates := Some cs, random_filter := [], screen := ''random_pick''\<rparr>, g2)"
    using enter_random_pick_returns by blast
  then have "start_random_flow WORDS clock u g
       = Inr (u\<lparr>random_candidates := Some cs, random_filter := [], screen := ''random_pick''\<rparr>, g2)"
    using assms cs(1) by (simp add: start_random_flow_def)
  with cs(2) show ?thesis by blast
qed

text \<open>
  The browse flow does the same on a pool that is not empty.
\<close>

lemma start_random_simple_sample:
  assumes "1 < word_options_count u" and "WORDS \<noteq> []"
  shows "\<exists>cs g'. start_random_simple WORDS clock u g
            = Inr (u\<lparr>simple_candidates := Some cs, simple_index := 0, simple_hold_started := False,
                     simple_hold_until := 0, screen := ''random_simple''\<rparr>, g')
          \<and> int (length cs) = min (word_options_count u) (int (length WORDS))"
proof -
  let ?k = "min (word_options_count u) (int (length WORDS))"
  have len: "1 \<le> int (length WORDS)" using assms(2) by (cases WORDS) simp_all
  then have k1: "1 \<le> ?k" using assms(1) by simp
  then have count: "max 1 ?k = ?k" by simp
  have "0 \<le> ?k" and "?k \<le> int (length WORDS)" using k1 by simp_all
  then obtain cs g1 where cs: "sample WORDS ?k g = Inr (cs, g1)" "int (length cs) = ?k"
    using sample_size by blast
  from cs(2) k1 obtain c cs' where split: "cs = c # cs'" by (cases cs) auto
  have "enter_random_simple (u\<lparr>simple_candidates := Some cs, simple_index := 0,
                           simple_hold_started := False, simple_hold_until := 0\<rparr>)
      = Inr (u\<lparr>simple_candidates := Some cs, simple_index := 0, simple_hold_started := False,
                     simple_hold_until := 0, screen := ''random_simple''\<rparr>)"
    using split by (simp add: enter_random_simple_def py_index_def)
  then have "start_random_simple WORDS clock u g
       = Inr (u\<lparr>simple_candidates := Some cs, simple_index := 0, simple_hold_started := False,
                     simple_hold_until := 0, screen := ''random_simple''\<rparr>, g1)"
    using assms(1) cs(1) count by (simp add: start_random_simple_def Let_def)
  with cs(2) show ?thesis by blast
qed

text \<open>
  Claim C6 on the empty pool. With more than one word option \<open>start_random_simple\<close>
  asks \<open>random.sample\<close> for \<open>max(1, min(count, 0)) = 1\<close> element of an empty
  population, which raises \<open>ValueError\<close>; \<open>start_random_flow\<close> on the same input
  samples \<open>min(count, 0) = 0\<close> elements and returns with an empty candidate list.
\<close>

theorem start_random_simple_empty_pool_raises:
  assumes "1 < word_options_count u"
  shows "start_random_simple [] clock u g = Inl ValueError
         \<and> start_random_flow [] clock u g
             = Inr (u\<lparr>random_candidates := Some [], random_filter := [], screen := ''random_pick''\<rparr>, g)"
  using assms
  by (simp add: start_random_simple_def start_random_flow_def sample_def enter_random_pick_def
      best_random_choice_def choose_word_for_source_def Let_def)

theorem start_random_simple_empty_pool_raises_witness:
  "1 < word_options_count (ui_state0\<lparr>word_options_count := 2\<rparr>)
   \<and> start_random_simple [] 0 (ui_state0\<lparr>word_options_count := 2\<rparr>) (\<lambda>n. n) = Inl ValueError
   \<and> start_random_flow [] 0 (ui_state0\<lparr>word_options_count := 2\<rparr>) (\<lambda>n. n)
       = Inr (ui_state0\<lparr>word_options_count := 2, random_candidates := Some [], screen := ''random_pick''\<rparr>, \<lambda>n. n)"
  using start_random_simple_empty_pool_raises [of "ui_state0\<lparr>word_options_count := 2\<rparr>" 0 "\<lambda>n. n"]
  by (simp add: ui_state0_def)

text \<open>
  The exception reaches the main loop: the handoff timer that \<open>select_mode\<close> sets for
  the mode Random Simple calls \<open>start_random_simple\<close>.
\<close>

lemma handoff_timer_empty_pool_raises:
  "update_timers [] 5 5 (ui_state0\<lparr>screen := ''handoff'', handoff_until := 4, word_options_count := 2,
      handoff_pending_action := ''start_random_simple''\<rparr>) (\<lambda>n. n) = Inl ValueError"
  by (simp add: update_timers_def ui_state0_def start_random_simple_def sample_def Let_def)

end
